theory Spec2Isabelle
  imports Main "HOL-Library.AList"
begin

section \<open>Strings\<close>

text \<open>
  Strings are lists of characters. The model covers ASCII text: \<open>toLowerCase\<close>
  folds \<open>A\<close>..\<open>Z\<close> (codes 65 to 90, where adding 32 is setting bit 5) and leaves
  every other character as it is, and the line terminators that the regular expression
  atom \<open>.\<close> rejects are line feed and carriage return.
\<close>

definition toLowerCase_char :: "char \<Rightarrow> char" where
  "toLowerCase_char c =
     (let n = (of_char c :: nat)
      in if 65 \<le> n \<and> n \<le> 90
         then (case c of Char b0 b1 b2 b3 b4 b5 b6 b7 \<Rightarrow> Char b0 b1 b2 b3 b4 True b6 b7)
         else c)"

definition toLowerCase :: "string \<Rightarrow> string" where
  "toLowerCase s = map toLowerCase_char s"

definition startsWith :: "string \<Rightarrow> string \<Rightarrow> bool" where
  "startsWith s p = (take (length p) s = p)"

definition endsWith :: "string \<Rightarrow> string \<Rightarrow> bool" where
  "endsWith s p = (length p \<le> length s \<and> drop (length s - length p) s = p)"

text \<open>\<open>s.slice(start, end)\<close> with the relative indices of ECMAScript: a negative
  index counts from the end, and both are clamped to the string.\<close>

definition slice :: "string \<Rightarrow> int \<Rightarrow> int \<Rightarrow> string" where
  "slice s start fin =
     (let len = int (length s);
          from = (if start < 0 then max (len + start) 0 else min start len);
          to = (if fin < 0 then max (len + fin) 0 else min fin len)
      in take (nat (to - from)) (drop (nat from) s))"

definition slice_from :: "string \<Rightarrow> int \<Rightarrow> string" where
  "slice_from s start = slice s start (int (length s))"

text \<open>\<open>s.split('/')\<close>: never empty, the empty string gives one empty token.\<close>

fun split_str :: "char \<Rightarrow> string \<Rightarrow> string list" where
  "split_str d [] = [[]]"
| "split_str d (c # cs) =
     (if c = d then [] # split_str d cs
      else (case split_str d cs of [] \<Rightarrow> [[c]] | w # ws \<Rightarrow> (c # w) # ws))"

text \<open>\<open>xs.join('/')\<close>.\<close>

fun join_str :: "string \<Rightarrow> string list \<Rightarrow> string" where
  "join_str sep [] = []"
| "join_str sep [x] = x"
| "join_str sep (x # y # ys) = x @ sep @ join_str sep (y # ys)"

definition is_slash :: "char \<Rightarrow> bool" where
  "is_slash c = (c = CHR ''/'')"

text \<open>\<open>replace(/^\/+/, '')\<close>, \<open>replace(/\/+$/, '')\<close> and \<open>replace(/\/+/g, '/')\<close>.\<close>

definition trim_leading_slashes :: "string \<Rightarrow> string" where
  "trim_leading_slashes s = dropWhile is_slash s"

definition trim_trailing_slashes :: "string \<Rightarrow> string" where
  "trim_trailing_slashes s = rev (dropWhile is_slash (rev s))"

fun collapse_slashes :: "string \<Rightarrow> string" where
  "collapse_slashes [] = []"
| "collapse_slashes [c] = [c]"
| "collapse_slashes (c # d # cs) =
     (if is_slash c \<and> is_slash d then collapse_slashes (d # cs)
      else c # collapse_slashes (d # cs))"

section \<open>The regular expression engine of the host\<close>

text \<open>
  \<open>RegExp\<close> belongs to the JavaScript runtime, not to the router, so the router is
  modelled over an engine given as a parameter: \<open>RegExp_new pattern flags\<close> is the
  constructor (\<open>None\<close> when it throws a SyntaxError), \<open>RegExp_test\<close> is
  \<open>re.test(s)\<close> and \<open>RegExp_toString\<close> is \<open>re.toString()\<close>.
\<close>

record 'r RegExpEngine =
  RegExp_new :: "string \<Rightarrow> string \<Rightarrow> 'r option"
  RegExp_test :: "'r \<Rightarrow> string \<Rightarrow> bool"
  RegExp_toString :: "'r \<Rightarrow> string"

text \<open>The two ways \<open>addRoute\<close> can throw: the SyntaxError of a bare
  \<open>new RegExp(parsed.regex)\<close>, and the Error that wraps the failure of the anchored
  compilation (\<open>Invalid regex in route: ...\<close>).\<close>

datatype exn = SyntaxError string | Error string

section \<open>Segment classification\<close>

datatype SegmentType =
  Static | Named | NamedRegex | NamedSuffix | NamedRegexSuffix | CatchAll | LiteralColon | Wildcard

record ParsedSegment =
  seg_type :: SegmentType
  seg_name :: "string option"
  seg_value :: "string option"
  seg_regex :: "string option"
  seg_suffix :: "string option"

definition is_word_char :: "char \<Rightarrow> bool" where
  "is_word_char c =
     (let n = (of_char c :: nat)
      in (97 \<le> n \<and> n \<le> 122) \<or> (65 \<le> n \<and> n \<le> 90) \<or> (48 \<le> n \<and> n \<le> 57) \<or> n = 95)"

definition not_rparen :: "char \<Rightarrow> bool" where
  "not_rparen c = (c \<noteq> CHR '')'')"

definition not_line_terminator :: "char \<Rightarrow> bool" where
  "not_line_terminator c = (c \<noteq> CHR 0x0A \<and> c \<noteq> CHR 0x0D)"

text \<open>
  \<open>/:([a-zA-Z0-9_]+)(?:\(([^)]+)\))?\+(.+)/\<close> tried at the head of \<open>s\<close>. The name
  is the longest run of word characters (a shorter one is followed by a word character,
  where only \<open>(\<close> or \<open>+\<close> can continue), the pattern runs to the first \<open>)\<close>,
  and the suffix is the longest run of characters that are not line terminators.
  The result is (name, regex, suffix), the regex group \<open>None\<close> when it took no part.
\<close>

definition suffixRegex_at :: "string \<Rightarrow> (string \<times> string option \<times> string) option" where
  "suffixRegex_at s =
     (case s of
        [] \<Rightarrow> None
      | c # r \<Rightarrow>
          if c \<noteq> CHR '':'' then None
          else
            let name = takeWhile is_word_char r; r1 = dropWhile is_word_char r
            in if name = [] then None
               else (case r1 of
                  [] \<Rightarrow> None
                | c1 # r2 \<Rightarrow>
                    if c1 = CHR ''('' then
                      (let pat = takeWhile not_rparen r2; r3 = dropWhile not_rparen r2
                       in if pat = [] then None
                          else (case r3 of
                             [] \<Rightarrow> None
                           | c3 # r4 \<Rightarrow>
                               (case r4 of
                                  [] \<Rightarrow> None
                                | c4 # r5 \<Rightarrow>
                                    if c4 = CHR ''+'' \<and> takeWhile not_line_terminator r5 \<noteq> []
                                    then Some (name, Some pat, takeWhile not_line_terminator r5)
                                    else None)))
                    else if c1 = CHR ''+'' \<and> takeWhile not_line_terminator r2 \<noteq> []
                    then Some (name, None, takeWhile not_line_terminator r2)
                    else None))"

text \<open>\<open>/:([a-zA-Z0-9_]+)\(([^)]+)\)/\<close> tried at the head of \<open>s\<close>: (name, regex).\<close>

definition regexRegex_at :: "string \<Rightarrow> (string \<times> string) option" where
  "regexRegex_at s =
     (case s of
        [] \<Rightarrow> None
      | c # r \<Rightarrow>
          if c \<noteq> CHR '':'' then None
          else
            let name = takeWhile is_word_char r; r1 = dropWhile is_word_char r
            in if name = [] then None
               else (case r1 of
                  [] \<Rightarrow> None
                | c1 # r2 \<Rightarrow>
                    if c1 = CHR ''('' then
                      (let pat = takeWhile not_rparen r2; r3 = dropWhile not_rparen r2
                       in if pat = [] \<or> r3 = [] then None else Some (name, pat))
                    else None))"

text \<open>\<open>segment.match(re)\<close> without the global flag: the leftmost position where the
  expression matches.\<close>

fun match_leftmost :: "(string \<Rightarrow> 'a option) \<Rightarrow> string \<Rightarrow> 'a option" where
  "match_leftmost f [] = f []"
| "match_leftmost f (c # cs) =
     (case f (c # cs) of Some r \<Rightarrow> Some r | None \<Rightarrow> match_leftmost f cs)"

definition suffixMatch :: "string \<Rightarrow> (string \<times> string option \<times> string) option" where
  "suffixMatch segment = match_leftmost suffixRegex_at segment"

definition regexMatch :: "string \<Rightarrow> (string \<times> string) option" where
  "regexMatch segment = match_leftmost regexRegex_at segment"

text \<open>Truthiness of an optional string: \<open>undefined\<close> and \<open>''\<close> are falsy.\<close>

definition truthy :: "string option \<Rightarrow> bool" where
  "truthy v = (case v of None \<Rightarrow> False | Some s \<Rightarrow> s \<noteq> [])"

definition parseSegment :: "string \<Rightarrow> ParsedSegment" where
  "parseSegment segment =
     (if startsWith segment ''::'' then
        \<lparr>seg_type = Static, seg_name = None,
         seg_value = Some (CHR '':'' # slice_from segment 2), seg_regex = None, seg_suffix = None\<rparr>
      else if segment = ''*'' then
        \<lparr>seg_type = Wildcard, seg_name = None, seg_value = None, seg_regex = None, seg_suffix = None\<rparr>
      else if endsWith segment ''*'' \<and> take 1 segment = '':'' then
        \<lparr>seg_type = CatchAll, seg_name = Some (slice segment 1 (- 1)),
         seg_value = None, seg_regex = None, seg_suffix = None\<rparr>
      else
        (case suffixMatch segment of
           Some (name, regex, suffix) \<Rightarrow>
             \<lparr>seg_type = (if truthy regex then NamedRegexSuffix else NamedSuffix),
              seg_name = Some name, seg_value = None, seg_regex = regex, seg_suffix = Some suffix\<rparr>
         | None \<Rightarrow>
             (case regexMatch segment of
                Some (name, regex) \<Rightarrow>
                  \<lparr>seg_type = NamedRegex, seg_name = Some name, seg_value = None,
                   seg_regex = Some regex, seg_suffix = None\<rparr>
              | None \<Rightarrow>
                  if startsWith segment '':'' then
                    \<lparr>seg_type = Named, seg_name = Some (slice_from segment 1),
                     seg_value = None, seg_regex = None, seg_suffix = None\<rparr>
                  else
                    \<lparr>seg_type = Static, seg_name = None, seg_value = Some segment,
                     seg_regex = None, seg_suffix = None\<rparr>)))"

section \<open>The trie\<close>

text \<open>
  A parameter child is the record pushed on \<open>paramChildren\<close>; a node holds its static
  children (a \<open>Map\<close>, here an association list in insertion order with unique keys),
  its parameter children in insertion order, at most one catch-all child with its name,
  at most one wildcard child, and its handlers. Handlers are opaque values of type \<open>'h\<close>.
\<close>

datatype ('r, 'n) ParamChild =
  ParamChild (ptype: SegmentType) (pname: string) (pregex: "'r option")
    (psuffix: "string option") (pnode: 'n)

datatype ('h, 'r) TrieNode =
  TrieNode
    (staticChildren: "(string \<times> ('h, 'r) TrieNode) list")
    (paramChildren: "('r, ('h, 'r) TrieNode) ParamChild list")
    (catchAllChild: "(string \<times> ('h, 'r) TrieNode) option")
    (wildcardChild: "('h, 'r) TrieNode option")
    (handlers: "'h list")

definition new_TrieNode :: "('h, 'r) TrieNode" where
  "new_TrieNode = TrieNode [] [] None None []"

definition addHandler :: "'h \<Rightarrow> ('h, 'r) TrieNode \<Rightarrow> ('h, 'r) TrieNode" where
  "addHandler handler node =
     TrieNode (staticChildren node) (paramChildren node) (catchAllChild node)
       (wildcardChild node) (handlers node @ [handler])"

record RouteTrieOptions =
  ignoreCase :: bool
  fixedPath :: bool
  trailingSlash :: bool

record ('h, 'r) RouteTrie =
  root :: "('h, 'r) TrieNode"
  options :: RouteTrieOptions
  routes :: "(string \<times> 'h list) list"

text \<open>The constructor: an option left out defaults to true.\<close>

definition new_RouteTrie :: "bool option \<Rightarrow> bool option \<Rightarrow> bool option \<Rightarrow> ('h, 'r) RouteTrie" where
  "new_RouteTrie ic fp ts =
     \<lparr>root = new_TrieNode,
      options = \<lparr>ignoreCase = (case ic of None \<Rightarrow> True | Some b \<Rightarrow> b),
                 fixedPath = (case fp of None \<Rightarrow> True | Some b \<Rightarrow> b),
                 trailingSlash = (case ts of None \<Rightarrow> True | Some b \<Rightarrow> b)\<rparr>,
      routes = []\<rparr>"

section \<open>Registration\<close>

definition normalizeRoutePath :: "RouteTrieOptions \<Rightarrow> string \<Rightarrow> string" where
  "normalizeRoutePath opts path =
     (let n1 = trim_trailing_slashes (trim_leading_slashes path);
          n2 = (if ignoreCase opts then toLowerCase n1 else n1);
          n3 = (if fixedPath opts then collapse_slashes n2 else n2)
      in n3)"

text \<open>
  The right-hand side of the comparison in the scan for an existing parameter child:
  \<open>parsed.regex ? new RegExp(parsed.regex).toString() : undefined\<close>. The constructor
  runs outside any \<open>try\<close>, so its SyntaxError leaves \<open>addRoute\<close>.
\<close>

definition parsed_regex_toString :: "'r RegExpEngine \<Rightarrow> ParsedSegment \<Rightarrow> exn + string option" where
  "parsed_regex_toString E parsed =
     (if truthy (seg_regex parsed) then
        (case RegExp_new E (the (seg_regex parsed)) [] of
           None \<Rightarrow> Inl (SyntaxError (the (seg_regex parsed)))
         | Some re \<Rightarrow> Inr (Some (RegExp_toString E re)))
      else Inr None)"

text \<open>
  The \<open>for\<close> loop over \<open>node.paramChildren\<close>: the index of the first child equal in
  name, type, regex text and suffix (\<open>&&\<close> evaluates the regex comparison only when
  name and type agree), \<open>None\<close> when the loop ends without a \<open>break\<close>.
\<close>

fun find_paramChild ::
  "'r RegExpEngine \<Rightarrow> ParsedSegment \<Rightarrow> ('r, 'n) ParamChild list \<Rightarrow> exn + nat option" where
  "find_paramChild E parsed [] = Inr None"
| "find_paramChild E parsed (param # ps) =
     (if Some (pname param) = seg_name parsed \<and> ptype param = seg_type parsed then
        (case parsed_regex_toString E parsed of
           Inl e \<Rightarrow> Inl e
         | Inr rs \<Rightarrow>
             if map_option (RegExp_toString E) (pregex param) = rs
                \<and> psuffix param = seg_suffix parsed
             then Inr (Some 0)
             else map_sum id (map_option Suc) (find_paramChild E parsed ps))
      else map_sum id (map_option Suc) (find_paramChild E parsed ps))"

text \<open>The compilation of a new parameter child's pattern, anchored at both ends, with
  the flag \<open>i\<close> when the router ignores case; the \<open>catch\<close> rethrows as an Error.\<close>

definition compile_regex :: "'r RegExpEngine \<Rightarrow> RouteTrieOptions \<Rightarrow> ParsedSegment \<Rightarrow> exn + 'r option" where
  "compile_regex E opts parsed =
     (if truthy (seg_regex parsed) then
        (case RegExp_new E (''^'' @ the (seg_regex parsed) @ ''$'')
                (if ignoreCase opts then ''i'' else []) of
           None \<Rightarrow> Inl (Error (''Invalid regex in route: '' @ the (seg_regex parsed)))
         | Some re \<Rightarrow> Inr (Some re))
      else Inr None)"

definition set_pnode :: "('r, 'n) ParamChild \<Rightarrow> 'n \<Rightarrow> ('r, 'n) ParamChild" where
  "set_pnode p n = ParamChild (ptype p) (pname p) (pregex p) (psuffix p) n"

text \<open>
  \<open>_addRoute(node, segments, index, handler)\<close>, on the segments from \<open>index\<close> on.
  The source mutates the nodes in place and may throw half way: the result is the
  exception, if any, together with the node as the call leaves it. The four parameter
  types share one case of the \<open>switch\<close>, the last branch here; \<open>literal-colon\<close>
  has none, so the \<open>switch\<close> does nothing for it.
\<close>

fun u_addRoute ::
  "'r RegExpEngine \<Rightarrow> RouteTrieOptions \<Rightarrow> ('h, 'r) TrieNode \<Rightarrow> string list \<Rightarrow> 'h
     \<Rightarrow> exn option \<times> ('h, 'r) TrieNode" where
  "u_addRoute E opts node [] handler = (None, addHandler handler node)"
| "u_addRoute E opts node (segment # rest) handler =
     (let parsed = parseSegment segment in
      case seg_type parsed of
        Static \<Rightarrow>
          (let staticValue = the (seg_value parsed);
               child = (case map_of (staticChildren node) staticValue of
                          None \<Rightarrow> new_TrieNode | Some c \<Rightarrow> c)
           in case u_addRoute E opts child rest handler of
                (e, child') \<Rightarrow>
                  (e, TrieNode (AList.update staticValue child' (staticChildren node))
                        (paramChildren node) (catchAllChild node) (wildcardChild node)
                        (handlers node)))
      | CatchAll \<Rightarrow>
          (let ca = (case catchAllChild node of
                       None \<Rightarrow> (the (seg_name parsed), new_TrieNode) | Some nc \<Rightarrow> nc)
           in case u_addRoute E opts (snd ca) rest handler of
                (e, child') \<Rightarrow>
                  (e, TrieNode (staticChildren node) (paramChildren node)
                        (Some (fst ca, child')) (wildcardChild node) (handlers node)))
      | Wildcard \<Rightarrow>
          (let w = (case wildcardChild node of None \<Rightarrow> new_TrieNode | Some c \<Rightarrow> c)
           in case u_addRoute E opts w [] handler of
                (e, child') \<Rightarrow>
                  (e, TrieNode (staticChildren node) (paramChildren node)
                        (catchAllChild node) (Some child') (handlers node)))
      | LiteralColon \<Rightarrow> (None, node)
      | _ \<Rightarrow>
          (case find_paramChild E parsed (paramChildren node) of
             Inl e \<Rightarrow> (Some e, node)
           | Inr (Some i) \<Rightarrow>
               (case u_addRoute E opts (pnode (paramChildren node ! i)) rest handler of
                  (e, child') \<Rightarrow>
                    (e, TrieNode (staticChildren node)
                          ((paramChildren node)[i := set_pnode (paramChildren node ! i) child'])
                          (catchAllChild node) (wildcardChild node) (handlers node)))
           | Inr None \<Rightarrow>
               (case compile_regex E opts parsed of
                  Inl e \<Rightarrow> (Some e, node)
                | Inr regexObj \<Rightarrow>
                    (case u_addRoute E opts new_TrieNode rest handler of
                       (e, child') \<Rightarrow>
                         (e, TrieNode (staticChildren node)
                               (paramChildren node @
                                  [ParamChild (seg_type parsed) (the (seg_name parsed)) regexObj
                                     (seg_suffix parsed) child'])
                               (catchAllChild node) (wildcardChild node) (handlers node))))))"

definition route_segments :: "RouteTrieOptions \<Rightarrow> string \<Rightarrow> string list" where
  "route_segments opts path =
     filter (\<lambda>segment. segment \<noteq> []) (split_str CHR ''/'' (normalizeRoutePath opts path))"

definition addRoute ::
  "'r RegExpEngine \<Rightarrow> string \<Rightarrow> 'h \<Rightarrow> ('h, 'r) RouteTrie \<Rightarrow> exn option \<times> ('h, 'r) RouteTrie" where
  "addRoute E path handler t =
     (let normalizedPath = normalizeRoutePath (options t) path;
          old = (case map_of (routes t) normalizedPath of None \<Rightarrow> [] | Some hs \<Rightarrow> hs);
          routes' = AList.update normalizedPath (old @ [handler]) (routes t);
          segments = route_segments (options t) path
      in case u_addRoute E (options t) (root t) segments handler of
           (e, root') \<Rightarrow> (e, t\<lparr>root := root', routes := routes'\<rparr>))"

section \<open>Matching\<close>

text \<open>A result: the bound parameters (an object, here an association list in key
  order) and a copy of the handlers of the node reached.\<close>

record 'h MatchResult =
  params :: "(string \<times> string) list"
  result_handlers :: "'h list"

text \<open>
  The \<open>switch\<close> on \<open>param.type\<close> in the loop over the parameter children: the value
  bound to the parameter, \<open>None\<close> when \<open>paramValue\<close> stays \<open>null\<close>.
\<close>

definition paramValue ::
  "'r RegExpEngine \<Rightarrow> ('r, 'n) ParamChild \<Rightarrow> string \<Rightarrow> string option" where
  "paramValue E param currentSegment =
     (case ptype param of
        Named \<Rightarrow> Some currentSegment
      | NamedRegex \<Rightarrow>
          (case pregex param of
             None \<Rightarrow> None
           | Some re \<Rightarrow> if RegExp_test E re currentSegment then Some currentSegment else None)
      | NamedSuffix \<Rightarrow>
          if truthy (psuffix param) \<and> endsWith currentSegment (the (psuffix param))
          then Some (slice currentSegment 0 (- int (length (the (psuffix param)))))
          else None
      | NamedRegexSuffix \<Rightarrow>
          if truthy (psuffix param) \<and> endsWith currentSegment (the (psuffix param))
          then (case pregex param of
                  None \<Rightarrow> None
                | Some re \<Rightarrow>
                    if RegExp_test E re
                         (slice currentSegment 0 (- int (length (the (psuffix param)))))
                    then Some (slice currentSegment 0 (- int (length (the (psuffix param)))))
                    else None)
          else None
      | _ \<Rightarrow> None)"

text \<open>The results pushed for a catch-all child bound to \<open>remaining\<close>.\<close>

definition catchAll_results ::
  "('h, 'r) TrieNode \<Rightarrow> string \<Rightarrow> (string \<times> string) list \<Rightarrow> 'h MatchResult list" where
  "catchAll_results node remaining ps =
     (case catchAllChild node of
        None \<Rightarrow> []
      | Some (name, child) \<Rightarrow>
          if handlers child \<noteq> []
          then [\<lparr>params = AList.update name remaining ps, result_handlers = handlers child\<rparr>]
          else [])"

text \<open>
  \<open>_match(node, segments, index, params)\<close>, on the segments from \<open>index\<close> on: the
  first equation is the branch \<open>index >= segments.length\<close>, and the wildcard child
  is entered with the index at \<open>segments.length\<close>, that is with no segment left.
\<close>

fun u_match ::
  "'r RegExpEngine \<Rightarrow> ('h, 'r) TrieNode \<Rightarrow> string list \<Rightarrow> (string \<times> string) list
     \<Rightarrow> 'h MatchResult list" where
  "u_match E node [] ps =
     (if handlers node \<noteq> [] then [\<lparr>params = ps, result_handlers = handlers node\<rparr>] else [])
     @ catchAll_results node [] ps"
| "u_match E node (currentSegment # rest) ps =
     (case map_of (staticChildren node) currentSegment of
        None \<Rightarrow> []
      | Some childNode \<Rightarrow> u_match E childNode rest ps)
     @ concat (map (\<lambda>param.
          case paramValue E param currentSegment of
            None \<Rightarrow> []
          | Some v \<Rightarrow> u_match E (pnode param) rest (AList.update (pname param) v ps))
        (paramChildren node))
     @ catchAll_results node (join_str ''/'' (currentSegment # rest)) ps
     @ (case wildcardChild node of
          None \<Rightarrow> []
        | Some w \<Rightarrow> u_match E w [] ps)"

text \<open>The segment list \<open>_matchPath\<close> hands to \<open>_match\<close>.\<close>

definition is_empty_str :: "string \<Rightarrow> bool" where
  "is_empty_str s = (s = [])"

definition match_segments :: "RouteTrieOptions \<Rightarrow> string \<Rightarrow> bool \<Rightarrow> bool \<Rightarrow> string list" where
  "match_segments opts path useFixedPath useTrailingSlash =
     (let n1 = (if useFixedPath then collapse_slashes path else path);
          n2 = (if useTrailingSlash then trim_trailing_slashes n1 else n1);
          normalized = (if ignoreCase opts then toLowerCase n2 else n2);
          segments = split_str CHR ''/'' normalized;
          i = length (takeWhile is_empty_str segments);
          trailingEmptiesCount = length (takeWhile is_empty_str (rev (drop i segments)));
          contentEnd = length segments - trailingEmptiesCount;
          filtered = filter (\<lambda>s. \<not> (is_empty_str s \<and> useFixedPath))
                       (take (contentEnd - i) (drop i segments));
          addTrailing = (\<not> useTrailingSlash \<and> trailingEmptiesCount > 0);
          numToAdd = (if useFixedPath then 1 else trailingEmptiesCount)
      in if addTrailing then filtered @ replicate numToAdd [] else filtered)"

definition u_matchPath ::
  "'r RegExpEngine \<Rightarrow> ('h, 'r) RouteTrie \<Rightarrow> string \<Rightarrow> bool \<Rightarrow> bool \<Rightarrow> 'h MatchResult list" where
  "u_matchPath E t path useFixedPath useTrailingSlash =
     u_match E (root t) (match_segments (options t) path useFixedPath useTrailingSlash) []"

definition match :: "'r RegExpEngine \<Rightarrow> ('h, 'r) RouteTrie \<Rightarrow> string \<Rightarrow> 'h MatchResult list" where
  "match E t path =
     (let exactMatch = u_matchPath E t path False False in
      if length exactMatch > 0 then exactMatch
      else
        let fixedMatch = (if fixedPath (options t) then u_matchPath E t path True False else []) in
        if length fixedMatch > 0 then fixedMatch
        else
          let trailingMatch =
                (if trailingSlash (options t)
                 then u_matchPath E t path (fixedPath (options t)) True else [])
          in if length trailingMatch > 0 then trailingMatch else [])"


section \<open>A sample engine\<close>

text \<open>
  The pattern \<open>\d+\<close> as a string, and an engine that knows this pattern, bare and
  anchored, as ECMAScript reads it: \<open>/^\d+$/\<close> accepts the non-empty strings of
  digits, \<open>/\d+/\<close> the strings that hold a digit, and \<open>toString\<close> writes the source
  between slashes, followed by the flags. It rejects every other pattern; of those, the
  examples below use only \<open>[\<close>, bare and anchored, an unterminated character class
  that ECMAScript rejects as well.
\<close>

definition digits :: string where
  "digits = [CHR 0x5C, CHR ''d'', CHR ''+'']"

definition is_digit :: "char \<Rightarrow> bool" where
  "is_digit c = (let n = (of_char c :: nat) in 48 \<le> n \<and> n \<le> 57)"

definition sample_engine :: "(string \<times> string) RegExpEngine" where
  "sample_engine =
     \<lparr>RegExp_new = (\<lambda>p f. if p = digits \<or> p = ''^'' @ digits @ ''$'' then Some (p, f) else None),
      RegExp_test = (\<lambda>re s. if fst re = ''^'' @ digits @ ''$''
                             then s \<noteq> [] \<and> list_all is_digit s else list_ex is_digit s),
      RegExp_toString = (\<lambda>re. ''/'' @ fst re @ ''/'' @ snd re)\<rparr>"

section \<open>The fallback order as the specification words it\<close>


section \<open>Notions used in the statements\<close>


text \<open>
  The segments \<open>_addRoute\<close> classifies: those before the first wildcard segment. A
  segment is regex-bearing when its classification carries a pattern; the pattern
  compiles bare when \<open>new RegExp(pattern)\<close> succeeds, and anchored when
  \<open>new RegExp('^' + pattern + '$', flags)\<close> succeeds with the flags of the router.
\<close>

definition walked_segments :: "string list \<Rightarrow> string list" where
  "walked_segments segments =
     takeWhile (\<lambda>segment. seg_type (parseSegment segment) \<noteq> Wildcard) segments"

definition regex_bearing :: "string \<Rightarrow> bool" where
  "regex_bearing segment = truthy (seg_regex (parseSegment segment))"

definition compiles_bare :: "'r RegExpEngine \<Rightarrow> string \<Rightarrow> bool" where
  "compiles_bare E segment =
     (RegExp_new E (the (seg_regex (parseSegment segment))) [] \<noteq> None)"

definition compiles_anchored :: "'r RegExpEngine \<Rightarrow> RouteTrieOptions \<Rightarrow> string \<Rightarrow> bool" where
  "compiles_anchored E opts segment =
     (RegExp_new E (''^'' @ the (seg_regex (parseSegment segment)) @ ''$'')
        (if ignoreCase opts then ''i'' else []) \<noteq> None)"

section \<open>Evaluation\<close>

declare u_addRoute.simps [simp del] u_match.simps [simp del]

lemmas string_defs =
  toLowerCase_def toLowerCase_char_def startsWith_def endsWith_def slice_def slice_from_def
  is_slash_def trim_leading_slashes_def trim_trailing_slashes_def is_empty_str_def

lemmas parse_defs =
  parseSegment_def suffixMatch_def regexMatch_def suffixRegex_at_def regexRegex_at_def
  is_word_char_def not_rparen_def not_line_terminator_def truthy_def

lemmas add_defs =
  addRoute_def route_segments_def normalizeRoutePath_def new_RouteTrie_def new_TrieNode_def
  addHandler_def parsed_regex_toString_def compile_regex_def set_pnode_def u_addRoute.simps

lemmas match_defs =
  match_def u_matchPath_def match_segments_def catchAll_results_def paramValue_def u_match.simps

lemmas engine_defs = sample_engine_def digits_def is_digit_def

lemma toLowerCase_char_code:
  "(of_char (toLowerCase_char c) :: nat) =
     (if 65 \<le> (of_char c :: nat) \<and> (of_char c :: nat) \<le> 90 then of_char c + 32 else of_char c)"
  by (cases c) (auto simp add: toLowerCase_char_def Let_def)

section \<open>Strict mode\<close>

lemma strict_insert:
  "addRoute E ''/api/foo'' h (new_RouteTrie (Some False) (Some False) (Some False)) =
     (None,
      \<lparr>root = TrieNode [(''api'', TrieNode [(''foo'', TrieNode [] [] None None [h])] [] None None [])]
                [] None None [],
       options = \<lparr>ignoreCase = False, fixedPath = False, trailingSlash = False\<rparr>,
       routes = [(''api/foo'', [h])]\<rparr>)"
  by (simp add: string_defs parse_defs add_defs)

text \<open>
  C4. On a trie built with all three options off and the route \<open>/api/foo\<close>, the
  paths \<open>/API/foo\<close>, \<open>/api//foo\<close> and \<open>/api/foo/\<close> match nothing, and \<open>/api/foo\<close>
  gives one result that holds the handler of the route.
\<close>

theorem strict_mode_exactness:
  "fst (addRoute E ''/api/foo'' h (new_RouteTrie (Some False) (Some False) (Some False))) = None
   \<and> match E (snd (addRoute E ''/api/foo'' h (new_RouteTrie (Some False) (Some False) (Some False))))
        ''/API/foo'' = []
   \<and> match E (snd (addRoute E ''/api/foo'' h (new_RouteTrie (Some False) (Some False) (Some False))))
        ''/api//foo'' = []
   \<and> match E (snd (addRoute E ''/api/foo'' h (new_RouteTrie (Some False) (Some False) (Some False))))
        ''/api/foo/'' = []
   \<and> match E (snd (addRoute E ''/api/foo'' h (new_RouteTrie (Some False) (Some False) (Some False))))
        ''/api/foo'' = [\<lparr>params = [], result_handlers = [h]\<rparr>]"
  unfolding strict_insert by (simp add: string_defs match_defs)

section \<open>Sibling parameter children\<close>

lemma fresh_insert_named:
  "addRoute E ''/:id'' h1 (new_RouteTrie (Some ic) (Some fp) (Some ts)) =
     (None,
      \<lparr>root = TrieNode [] [ParamChild Named ''id'' None None (TrieNode [] [] None None [h1])] None None [],
       options = \<lparr>ignoreCase = ic, fixedPath = fp, trailingSlash = ts\<rparr>,
       routes = [('':id'', [h1])]\<rparr>)"
  by (cases ic; cases fp) (simp_all add: string_defs parse_defs add_defs Let_def)

lemma fresh_insert_regex:
  assumes "RegExp_new E (''^'' @ digits @ ''$'') (if ic then ''i'' else []) = Some re"
  shows "addRoute E (''/:id('' @ digits @ '')'') h1 (new_RouteTrie (Some ic) (Some fp) (Some ts)) =
     (None,
      \<lparr>root = TrieNode [] [ParamChild NamedRegex ''id'' (Some re) None (TrieNode [] [] None None [h1])] None None [],
       options = \<lparr>ignoreCase = ic, fixedPath = fp, trailingSlash = ts\<rparr>,
       routes = [('':id('' @ digits @ '')'', [h1])]\<rparr>)"
  using assms by (cases ic; cases fp) (simp_all add: string_defs parse_defs add_defs digits_def Let_def)

lemma second_insert_regex_after_named:
  assumes "RegExp_new E (''^'' @ digits @ ''$'') (if ic then ''i'' else []) = Some re"
  shows "addRoute E (''/:id('' @ digits @ '')'') h2
      \<lparr>root = TrieNode [] [ParamChild Named ''id'' None None (TrieNode [] [] None None [h1])] None None [],
       options = \<lparr>ignoreCase = ic, fixedPath = fp, trailingSlash = ts\<rparr>,
       routes = [('':id'', [h1])]\<rparr> =
     (None,
      \<lparr>root = TrieNode [] [ParamChild Named ''id'' None None (TrieNode [] [] None None [h1]),
                           ParamChild NamedRegex ''id'' (Some re) None (TrieNode [] [] None None [h2])] None None [],
       options = \<lparr>ignoreCase = ic, fixedPath = fp, trailingSlash = ts\<rparr>,
       routes = [('':id'', [h1]), ('':id('' @ digits @ '')'', [h2])]\<rparr>)"
  using assms by (cases ic; cases fp) (simp_all add: string_defs parse_defs add_defs digits_def Let_def)

lemma second_insert_named_after_regex:
  "addRoute E ''/:id'' h2
      \<lparr>root = TrieNode [] [ParamChild NamedRegex ''id'' (Some re) None (TrieNode [] [] None None [h1])] None None [],
       options = \<lparr>ignoreCase = ic, fixedPath = fp, trailingSlash = ts\<rparr>,
       routes = [('':id('' @ digits @ '')'', [h1])]\<rparr> =
     (None,
      \<lparr>root = TrieNode [] [ParamChild NamedRegex ''id'' (Some re) None (TrieNode [] [] None None [h1]),
                           ParamChild Named ''id'' None None (TrieNode [] [] None None [h2])] None None [],
       options = \<lparr>ignoreCase = ic, fixedPath = fp, trailingSlash = ts\<rparr>,
       routes = [('':id('' @ digits @ '')'', [h1]), ('':id'', [h2])]\<rparr>)"
  by (cases ic; cases fp) (simp_all add: string_defs parse_defs add_defs digits_def Let_def)

lemma second_insert_regex_after_regex:
  assumes "RegExp_new E (''^'' @ digits @ ''$'') (if ic then ''i'' else []) = Some re"
    and "RegExp_new E digits [] = Some re0"
    and "RegExp_toString E re \<noteq> RegExp_toString E re0"
  shows "addRoute E (''/:id('' @ digits @ '')'') h2
      \<lparr>root = TrieNode [] [ParamChild NamedRegex ''id'' (Some re) None (TrieNode [] [] None None [h1])] None None [],
       options = \<lparr>ignoreCase = ic, fixedPath = fp, trailingSlash = ts\<rparr>,
       routes = [('':id('' @ digits @ '')'', [h1])]\<rparr> =
     (None,
      \<lparr>root = TrieNode [] [ParamChild NamedRegex ''id'' (Some re) None (TrieNode [] [] None None [h1]),
                           ParamChild NamedRegex ''id'' (Some re) None (TrieNode [] [] None None [h2])] None None [],
       options = \<lparr>ignoreCase = ic, fixedPath = fp, trailingSlash = ts\<rparr>,
       routes = [('':id('' @ digits @ '')'', [h1, h2])]\<rparr>)"
  using assms by (cases ic; cases fp) (simp_all add: string_defs parse_defs add_defs digits_def Let_def)


lemma second_insert_named_after_named:
  "addRoute E ''/:id'' h2
      \<lparr>root = TrieNode [] [ParamChild Named ''id'' None None (TrieNode [] [] None None [h1])] None None [],
       options = \<lparr>ignoreCase = ic, fixedPath = fp, trailingSlash = ts\<rparr>,
       routes = [('':id'', [h1])]\<rparr> =
     (None,
      \<lparr>root = TrieNode [] [ParamChild Named ''id'' None None (TrieNode [] [] None None [h1, h2])] None None [],
       options = \<lparr>ignoreCase = ic, fixedPath = fp, trailingSlash = ts\<rparr>,
       routes = [('':id'', [h1, h2])]\<rparr>)"
  by (cases ic; cases fp) (simp_all add: string_defs parse_defs add_defs Let_def)

lemma match_named_regex_42:
  assumes "RegExp_test E re ''42''"
  shows "match E \<lparr>root = TrieNode [] [ParamChild Named ''id'' None None (TrieNode [] [] None None [h1]),
                             ParamChild NamedRegex ''id'' (Some re) None (TrieNode [] [] None None [h2])] None None [],
       options = \<lparr>ignoreCase = ic, fixedPath = fp, trailingSlash = ts\<rparr>, routes = rs\<rparr> ''/42'' =
     [\<lparr>params = [(''id'', ''42'')], result_handlers = [h1]\<rparr>,
      \<lparr>params = [(''id'', ''42'')], result_handlers = [h2]\<rparr>]"
  using assms by (cases ic) (simp_all add: string_defs match_defs Let_def)

lemma match_named_regex_abc:
  assumes "\<not> RegExp_test E re ''abc''"
  shows "match E \<lparr>root = TrieNode [] [ParamChild Named ''id'' None None (TrieNode [] [] None None [h1]),
                             ParamChild NamedRegex ''id'' (Some re) None (TrieNode [] [] None None [h2])] None None [],
       options = \<lparr>ignoreCase = ic, fixedPath = fp, trailingSlash = ts\<rparr>, routes = rs\<rparr> ''/abc'' =
     [\<lparr>params = [(''id'', ''abc'')], result_handlers = [h1]\<rparr>]"
  using assms by (cases ic) (simp_all add: string_defs match_defs Let_def)

lemma match_regex_named_42:
  assumes "RegExp_test E re ''42''"
  shows "match E \<lparr>root = TrieNode [] [ParamChild NamedRegex ''id'' (Some re) None (TrieNode [] [] None None [h1]),
                             ParamChild Named ''id'' None None (TrieNode [] [] None None [h2])] None None [],
       options = \<lparr>ignoreCase = ic, fixedPath = fp, trailingSlash = ts\<rparr>, routes = rs\<rparr> ''/42'' =
     [\<lparr>params = [(''id'', ''42'')], result_handlers = [h1]\<rparr>,
      \<lparr>params = [(''id'', ''42'')], result_handlers = [h2]\<rparr>]"
  using assms by (cases ic) (simp_all add: string_defs match_defs Let_def)

lemma match_regex_named_abc:
  assumes "\<not> RegExp_test E re ''abc''"
  shows "match E \<lparr>root = TrieNode [] [ParamChild NamedRegex ''id'' (Some re) None (TrieNode [] [] None None [h1]),
                             ParamChild Named ''id'' None None (TrieNode [] [] None None [h2])] None None [],
       options = \<lparr>ignoreCase = ic, fixedPath = fp, trailingSlash = ts\<rparr>, routes = rs\<rparr> ''/abc'' =
     [\<lparr>params = [(''id'', ''abc'')], result_handlers = [h2]\<rparr>]"
  using assms by (cases ic) (simp_all add: string_defs match_defs Let_def)

lemma match_regex_regex_42:
  assumes "RegExp_test E re ''42''"
  shows "match E \<lparr>root = TrieNode [] [ParamChild NamedRegex ''id'' (Some re) None (TrieNode [] [] None None [h1]),
                             ParamChild NamedRegex ''id'' (Some re) None (TrieNode [] [] None None [h2])] None None [],
       options = \<lparr>ignoreCase = ic, fixedPath = fp, trailingSlash = ts\<rparr>, routes = rs\<rparr> ''/42'' =
     [\<lparr>params = [(''id'', ''42'')], result_handlers = [h1]\<rparr>,
      \<lparr>params = [(''id'', ''42'')], result_handlers = [h2]\<rparr>]"
  using assms by (cases ic) (simp_all add: string_defs match_defs Let_def)

text \<open>
  C7. With \<open>/:id\<close> and \<open>/:id(\d+)\<close> both registered on a fresh trie, in either
  order and under any options, \<open>/42\<close> gets two results, one for each route, both
  binding \<open>id\<close> to \<open>42\<close>, and \<open>/abc\<close> gets the result of the unconstrained route
  alone. The engine is assumed to compile \<open>^\d+$\<close> to an expression that accepts
  \<open>42\<close> and rejects \<open>abc\<close>.
\<close>

theorem ambiguous_coexistence:
  assumes "RegExp_new E (''^'' @ digits @ ''$'') (if ic then ''i'' else []) = Some re"
    and "RegExp_test E re ''42''" and "\<not> RegExp_test E re ''abc''"
  shows "match E (snd (addRoute E (''/:id('' @ digits @ '')'') h2
                   (snd (addRoute E ''/:id'' h1 (new_RouteTrie (Some ic) (Some fp) (Some ts)))))) ''/42''
           = [\<lparr>params = [(''id'', ''42'')], result_handlers = [h1]\<rparr>,
              \<lparr>params = [(''id'', ''42'')], result_handlers = [h2]\<rparr>]
       \<and> match E (snd (addRoute E (''/:id('' @ digits @ '')'') h2
                   (snd (addRoute E ''/:id'' h1 (new_RouteTrie (Some ic) (Some fp) (Some ts)))))) ''/abc''
           = [\<lparr>params = [(''id'', ''abc'')], result_handlers = [h1]\<rparr>]
       \<and> match E (snd (addRoute E ''/:id'' h1
                   (snd (addRoute E (''/:id('' @ digits @ '')'') h2 (new_RouteTrie (Some ic) (Some fp) (Some ts)))))) ''/42''
           = [\<lparr>params = [(''id'', ''42'')], result_handlers = [h2]\<rparr>,
              \<lparr>params = [(''id'', ''42'')], result_handlers = [h1]\<rparr>]
       \<and> match E (snd (addRoute E ''/:id'' h1
                   (snd (addRoute E (''/:id('' @ digits @ '')'') h2 (new_RouteTrie (Some ic) (Some fp) (Some ts)))))) ''/abc''
           = [\<lparr>params = [(''id'', ''abc'')], result_handlers = [h1]\<rparr>]"
  by (simp only: fresh_insert_named fresh_insert_regex [OF assms(1)] 
        second_insert_regex_after_named [OF assms(1)] second_insert_named_after_regex snd_conv
        match_named_regex_42 [OF assms(2)] match_named_regex_abc [OF assms(3)]
        match_regex_named_42 [OF assms(2)] match_regex_named_abc [OF assms(3)] simp_thms)

theorem ambiguous_coexistence_witness:
  "match sample_engine (snd (addRoute sample_engine (''/:id('' @ digits @ '')'') (2::nat)
                   (snd (addRoute sample_engine ''/:id'' 1 (new_RouteTrie (Some True) (Some True) (Some True)))))) ''/42''
           = [\<lparr>params = [(''id'', ''42'')], result_handlers = [1]\<rparr>,
              \<lparr>params = [(''id'', ''42'')], result_handlers = [2]\<rparr>]
   \<and> match sample_engine (snd (addRoute sample_engine (''/:id('' @ digits @ '')'') (2::nat)
                   (snd (addRoute sample_engine ''/:id'' 1 (new_RouteTrie (Some True) (Some True) (Some True)))))) ''/abc''
           = [\<lparr>params = [(''id'', ''abc'')], result_handlers = [1]\<rparr>]"
proof -
  have a: "RegExp_new sample_engine (''^'' @ digits @ ''$'') (if True then ''i'' else []) =
             Some (''^'' @ digits @ ''$'', ''i'')"
    by (simp add: engine_defs)
  have b: "RegExp_test sample_engine (''^'' @ digits @ ''$'', ''i'') ''42''"
    by (simp add: engine_defs)
  have c: "\<not> RegExp_test sample_engine (''^'' @ digits @ ''$'', ''i'') ''abc''"
    by (simp add: engine_defs)
  from ambiguous_coexistence [OF a b c, where ?h1.0 = "1::nat" and ?h2.0 = "2::nat" and fp = True and ts = True]
  show ?thesis by simp
qed

text \<open>
  C1, the code at a failing input. Registering \<open>/:id(\d+)\<close> twice on a fresh trie
  leaves two sibling parameter children with one handler each: the scan compares the
  text of the stored expression, compiled from \<open>^\d+$\<close> with the flags of the
  router, with the text of a fresh expression compiled from \<open>\d+\<close>, and the two
  differ. The path \<open>/42\<close> then gets two results of one handler each, not one result
  that holds both handlers. The unconstrained \<open>/:id\<close>, registered twice, does end
  with one child that holds both handlers.
\<close>

theorem duplicate_regex_registration:
  assumes "RegExp_new E (''^'' @ digits @ ''$'') (if ic then ''i'' else []) = Some re"
    and "RegExp_new E digits [] = Some re0"
    and "RegExp_toString E re \<noteq> RegExp_toString E re0"
    and "RegExp_test E re ''42''"
  shows "fst (addRoute E (''/:id('' @ digits @ '')'') h2
                (snd (addRoute E (''/:id('' @ digits @ '')'') h1
                        (new_RouteTrie (Some ic) (Some fp) (Some ts))))) = None
       \<and> root (snd (addRoute E (''/:id('' @ digits @ '')'') h2
                (snd (addRoute E (''/:id('' @ digits @ '')'') h1
                        (new_RouteTrie (Some ic) (Some fp) (Some ts))))))
           = TrieNode []
               [ParamChild NamedRegex ''id'' (Some re) None (TrieNode [] [] None None [h1]),
                ParamChild NamedRegex ''id'' (Some re) None (TrieNode [] [] None None [h2])]
               None None []
       \<and> match E (snd (addRoute E (''/:id('' @ digits @ '')'') h2
                (snd (addRoute E (''/:id('' @ digits @ '')'') h1
                        (new_RouteTrie (Some ic) (Some fp) (Some ts)))))) ''/42''
           = [\<lparr>params = [(''id'', ''42'')], result_handlers = [h1]\<rparr>,
              \<lparr>params = [(''id'', ''42'')], result_handlers = [h2]\<rparr>]
       \<and> root (snd (addRoute E ''/:id'' h2
                (snd (addRoute E ''/:id'' h1 (new_RouteTrie (Some ic) (Some fp) (Some ts))))))
           = TrieNode []
               [ParamChild Named ''id'' None None (TrieNode [] [] None None [h1, h2])]
               None None []"
  by (simp only: fresh_insert_regex [OF assms(1)]
        second_insert_regex_after_regex [OF assms(1) assms(2) assms(3)] snd_conv fst_conv
        match_regex_regex_42 [OF assms(4)] fresh_insert_named second_insert_named_after_named
        RouteTrie.simps simp_thms)

theorem duplicate_regex_registration_witness:
  "length (paramChildren (root (snd (addRoute sample_engine (''/:id('' @ digits @ '')'') (2::nat)
                (snd (addRoute sample_engine (''/:id('' @ digits @ '')'') (1::nat)
                        (new_RouteTrie (Some True) (Some True) (Some True)))))))) = 2
   \<and> match sample_engine (snd (addRoute sample_engine (''/:id('' @ digits @ '')'') (2::nat)
                (snd (addRoute sample_engine (''/:id('' @ digits @ '')'') (1::nat)
                        (new_RouteTrie (Some True) (Some True) (Some True)))))) ''/42''
           = [\<lparr>params = [(''id'', ''42'')], result_handlers = [1]\<rparr>,
              \<lparr>params = [(''id'', ''42'')], result_handlers = [2]\<rparr>]"
proof -
  have a: "RegExp_new sample_engine (''^'' @ digits @ ''$'') (if True then ''i'' else []) =
             Some (''^'' @ digits @ ''$'', ''i'')"
    by (simp add: engine_defs)
  have b: "RegExp_new sample_engine digits [] = Some (digits, [])"
    by (simp add: engine_defs)
  have c: "RegExp_toString sample_engine (''^'' @ digits @ ''$'', ''i'')
             \<noteq> RegExp_toString sample_engine (digits, [])"
    by (simp add: engine_defs)
  have d: "RegExp_test sample_engine (''^'' @ digits @ ''$'', ''i'') ''42''"
    by (simp add: engine_defs)
  from duplicate_regex_registration
         [OF a b c d, where ?h1.0 = "1::nat" and ?h2.0 = "2::nat" and fp = True and ts = True]
  show ?thesis by simp
qed

section \<open>Fallback order\<close>








section \<open>Frame\<close>




section \<open>Catch-all\<close>

lemma parse_catch_all_a: "parseSegment '':a*'' = \<lparr>seg_type = CatchAll, seg_name = Some ''a'', seg_value = None, seg_regex = None, seg_suffix = None\<rparr>"
  by (simp add: string_defs parse_defs)

lemma parse_catch_all_b: "parseSegment '':b*'' = \<lparr>seg_type = CatchAll, seg_name = Some ''b'', seg_value = None, seg_regex = None, seg_suffix = None\<rparr>"
  by (simp add: string_defs parse_defs)

lemma parse_catch_all_rest: "parseSegment '':rest*'' = \<lparr>seg_type = CatchAll, seg_name = Some ''rest'', seg_value = None, seg_regex = None, seg_suffix = None\<rparr>"
  by (simp add: string_defs parse_defs)

lemma parse_tail: "parseSegment ''tail'' = \<lparr>seg_type = Static, seg_name = None, seg_value = Some ''tail'', seg_regex = None, seg_suffix = None\<rparr>"
  by (simp add: string_defs parse_defs)

lemma segments_a: "route_segments opts ''/:a*'' = ['':a*'']"
  by (cases "ignoreCase opts"; cases "fixedPath opts") (simp_all add: string_defs route_segments_def normalizeRoutePath_def Let_def)

lemma segments_b: "route_segments opts ''/:b*'' = ['':b*'']"
  by (cases "ignoreCase opts"; cases "fixedPath opts") (simp_all add: string_defs route_segments_def normalizeRoutePath_def Let_def)

lemma segments_rest: "route_segments opts ''/:rest*'' = ['':rest*'']"
  by (cases "ignoreCase opts"; cases "fixedPath opts") (simp_all add: string_defs route_segments_def normalizeRoutePath_def Let_def)

lemma segments_rest_tail: "route_segments opts ''/:rest*/tail'' = ['':rest*'', ''tail'']"
  by (cases "ignoreCase opts"; cases "fixedPath opts") (simp_all add: string_defs route_segments_def normalizeRoutePath_def Let_def)

lemma addRoute_segments:
  "addRoute E path handler t =
     (fst (u_addRoute E (options t) (root t) (route_segments (options t) path) handler),
      t\<lparr>root := snd (u_addRoute E (options t) (root t) (route_segments (options t) path) handler),
        routes := AList.update (normalizeRoutePath (options t) path)
                    ((case map_of (routes t) (normalizeRoutePath (options t) path) of
                        None \<Rightarrow> [] | Some hs \<Rightarrow> hs) @ [handler]) (routes t)\<rparr>)"
  by (simp add: addRoute_def Let_def split: prod.splits)

lemma catch_all_reuse:
  "u_addRoute E opts (TrieNode sc pc (Some (n, c)) w hs) ['':b*''] h =
     (None, TrieNode sc pc (Some (n, addHandler h c)) w hs)"
  by (simp add: u_addRoute.simps parse_catch_all_b)

lemma catch_all_create:
  "u_addRoute E opts (TrieNode sc pc None w hs) ['':a*''] h =
     (None, TrieNode sc pc (Some (''a'', TrieNode [] [] None None [h])) w hs)"
  by (simp add: u_addRoute.simps parse_catch_all_a new_TrieNode_def addHandler_def)

lemma u_match_catch_all_only:
  "hs \<noteq> [] \<Longrightarrow> u_match E (TrieNode [] [] (Some (n, TrieNode sc pc ca w hs)) None []) segs ps =
     [\<lparr>params = AList.update n (join_str ''/'' segs) ps, result_handlers = hs\<rparr>]"
  by (cases segs) (simp_all add: u_match.simps catchAll_results_def)

lemma match_exact_nonempty:
  "u_matchPath E t path False False \<noteq> [] \<Longrightarrow> match E t path = u_matchPath E t path False False"
  by (simp add: match_def Let_def)

text \<open>
  C9. A node that has a catch-all child keeps it, name and all, when a catch-all
  segment of another name is registered there: the handler is appended to the child
  that exists. On a fresh trie, under any options, \<open>/:a*\<close> followed by \<open>/:b*\<close>
  leaves one catch-all child named \<open>a\<close> that holds both handlers, and every path gets
  exactly one result, whose only parameter is \<open>a\<close>, bound to the segments of the exact
  variant joined by the separator.
\<close>

theorem catch_all_name_fixed:
  "u_addRoute E opts (TrieNode sc pc (Some (n, c)) w hs) ['':b*''] h =
     (None, TrieNode sc pc (Some (n, addHandler h c)) w hs)
   \<and> fst (addRoute E ''/:b*'' h2 (snd (addRoute E ''/:a*'' h1 (new_RouteTrie ic fp ts)))) = None
   \<and> root (snd (addRoute E ''/:b*'' h2 (snd (addRoute E ''/:a*'' h1 (new_RouteTrie ic fp ts)))))
       = TrieNode [] [] (Some (''a'', TrieNode [] [] None None [h1, h2])) None []
   \<and> match E (snd (addRoute E ''/:b*'' h2 (snd (addRoute E ''/:a*'' h1 (new_RouteTrie ic fp ts))))) path
       = [\<lparr>params = [(''a'', join_str ''/''
                          (match_segments (options (snd (addRoute E ''/:a*'' h1 (new_RouteTrie ic fp ts))))
                             path False False))],
           result_handlers = [h1, h2]\<rparr>]"
proof -
  let ?t0 = "new_RouteTrie ic fp ts"
  let ?t1 = "snd (addRoute E ''/:a*'' h1 ?t0)"
  let ?t2 = "snd (addRoute E ''/:b*'' h2 ?t1)"
  have o0: "root ?t0 = TrieNode [] [] None None []"
    by (simp add: new_RouteTrie_def new_TrieNode_def)
  have r1: "root ?t1 = TrieNode [] [] (Some (''a'', TrieNode [] [] None None [h1])) None []"

    by (simp add: addRoute_segments segments_a o0 catch_all_create)
  have e2: "fst (addRoute E ''/:b*'' h2 ?t1) = None"
    and r2: "root ?t2 = TrieNode [] [] (Some (''a'', TrieNode [] [] None None [h1, h2])) None []"
    and o2: "options ?t2 = options ?t1"
    by (simp_all add: addRoute_segments [of E "''/:b*''"] segments_b r1 catch_all_reuse addHandler_def)
  have m: "u_matchPath E ?t2 path False False =
             [\<lparr>params = [(''a'', join_str ''/'' (match_segments (options ?t1) path False False))],
               result_handlers = [h1, h2]\<rparr>]"
    by (simp add: u_matchPath_def r2 o2 u_match_catch_all_only)
  have "match E ?t2 path = u_matchPath E ?t2 path False False"
    by (rule match_exact_nonempty) (simp add: m)
  with m e2 r2 catch_all_reuse show ?thesis by simp
qed

section \<open>Segments after a catch-all\<close>

lemma u_match_catchAll_child:
  "handlers c' = handlers c \<Longrightarrow>
   u_match E (TrieNode sc pc (Some (n, c')) w hs) segs ps =
   u_match E (TrieNode sc pc (Some (n, c)) w hs) segs ps"
  by (cases segs) (simp_all add: u_match.simps catchAll_results_def)

lemma u_match_catchAll_silent:
  "handlers c = [] \<Longrightarrow>
   u_match E (TrieNode sc pc (Some (n, c)) w hs) segs ps =
   u_match E (TrieNode sc pc None w hs) segs ps"
  by (cases segs) (simp_all add: u_match.simps catchAll_results_def)

lemma add_rest_tail:
  "u_addRoute E opts (TrieNode sc pc ca w hs) ['':rest*'', ''tail''] h =
     (None, TrieNode sc pc
        (Some (case ca of
                 None \<Rightarrow> (''rest'', TrieNode [(''tail'', TrieNode [] [] None None [h])] [] None None [])
               | Some (n, c) \<Rightarrow>
                   (n, TrieNode
                         (AList.update ''tail''
                            (addHandler h (case map_of (staticChildren c) ''tail'' of
                                             None \<Rightarrow> new_TrieNode | Some d \<Rightarrow> d))
                            (staticChildren c))
                         (paramChildren c) (catchAllChild c) (wildcardChild c) (handlers c))))
        w hs)"
  by (cases ca) (simp_all add: u_addRoute.simps parse_catch_all_rest parse_tail new_TrieNode_def addHandler_def Let_def split: prod.splits)

lemma u_match_add_rest_tail:
  "u_match E (snd (u_addRoute E opts node ['':rest*'', ''tail''] h)) segs ps = u_match E node segs ps"
proof (cases node)
  case (TrieNode sc pc ca w hs)
  show ?thesis
  proof (cases ca)
    case None
    with TrieNode show ?thesis
      by (simp only: add_rest_tail snd_conv option.case) (simp add: u_match_catchAll_silent)
  next
    case (Some nc)
    obtain n c where "nc = (n, c)" by (cases nc)
    have "u_match E (TrieNode sc pc (Some (n, TrieNode
                         (AList.update ''tail''
                            (addHandler h (case map_of (staticChildren c) ''tail'' of
                                             None \<Rightarrow> new_TrieNode | Some d \<Rightarrow> d))
                            (staticChildren c))
                         (paramChildren c) (catchAllChild c) (wildcardChild c) (handlers c))) w hs) segs ps
          = u_match E (TrieNode sc pc (Some (n, c)) w hs) segs ps"
      by (rule u_match_catchAll_child) simp
    with Some TrieNode \<open>nc = (n, c)\<close> show ?thesis
      by (simp only: add_rest_tail snd_conv option.case prod.case)
  qed
qed

lemma insert_rest_tail_ok: "fst (addRoute E ''/:rest*/tail'' h t) = None"
  by (cases "root t") (simp add: addRoute_segments segments_rest_tail add_rest_tail)

lemma match_insert_rest_tail:
  "match E (snd (addRoute E ''/:rest*/tail'' h t)) path = match E t path"
proof -
  have u: "u_matchPath E (snd (addRoute E ''/:rest*/tail'' h t)) path x y = u_matchPath E t path x y" for x y
    by (simp add: addRoute_segments segments_rest_tail u_matchPath_def u_match_add_rest_tail)
  have o: "options (snd (addRoute E ''/:rest*/tail'' h t)) = options t"
    by (simp add: addRoute_segments)
  show ?thesis
    unfolding match_def u o ..
qed

lemma u_match_empty_node: "u_match E (TrieNode [] [] None None []) segs ps = []"
  by (cases segs) (simp_all add: u_match.simps catchAll_results_def)

lemma match_fresh: "match E (new_RouteTrie ic fp ts) path = []"
  by (simp add: match_def u_matchPath_def new_RouteTrie_def new_TrieNode_def u_match_empty_node Let_def)

lemma snd_case_pair: "snd (case p of (e, c) \<Rightarrow> (e, g c)) = g (snd p)"
  by (cases p) simp

lemma handlers_u_addRoute_Cons:
  "handlers (snd (u_addRoute E opts node (s # rest) h)) = handlers node"
  by (cases "seg_type (parseSegment s)")
     (simp_all add: u_addRoute.simps Let_def snd_case_pair split: sum.splits option.splits)

lemma u_addRoute_catch_all:
  assumes "seg_type (parseSegment c) = CatchAll"
  shows "snd (u_addRoute E opts (TrieNode sc pc ca w hs) (c # rest) h) =
           TrieNode sc pc
             (Some (case ca of
                      None \<Rightarrow> (the (seg_name (parseSegment c)),
                                snd (u_addRoute E opts new_TrieNode rest h))
                    | Some nc \<Rightarrow> (fst nc, snd (u_addRoute E opts (snd nc) rest h))))
             w hs"
  using assms by (cases ca) (simp_all add: u_addRoute.simps Let_def snd_case_pair)

lemma u_match_after_catch_all:
  assumes "seg_type (parseSegment c) = CatchAll"
  shows "u_match E (snd (u_addRoute E opts node (c # s # rest) h)) segs ps = u_match E node segs ps"
proof (cases node)
  case (TrieNode sc pc ca w hs)
  show ?thesis
  proof (cases ca)
    case None
    have "handlers (snd (u_addRoute E opts new_TrieNode (s # rest) h)) = ([] :: 'a list)"
      by (simp add: handlers_u_addRoute_Cons new_TrieNode_def)
    then have "u_match E (TrieNode sc pc
                 (Some (the (seg_name (parseSegment c)),
                        snd (u_addRoute E opts new_TrieNode (s # rest) h))) w hs) segs ps
               = u_match E (TrieNode sc pc None w hs) segs ps"
      by (rule u_match_catchAll_silent)
    with TrieNode None show ?thesis
      by (simp only: u_addRoute_catch_all [OF assms] option.case)
  next
    case (Some nc)
    obtain n c0 where nc: "nc = (n, c0)" by (cases nc)
    have "u_match E (TrieNode sc pc (Some (n, snd (u_addRoute E opts c0 (s # rest) h))) w hs) segs ps
          = u_match E (TrieNode sc pc (Some (n, c0)) w hs) segs ps"
      by (rule u_match_catchAll_child) (rule handlers_u_addRoute_Cons)
    with TrieNode Some nc show ?thesis
      by (simp only: u_addRoute_catch_all [OF assms] option.case fst_conv snd_conv)
  qed
qed

lemma match_after_catch_all:
  assumes "route_segments (options t) path = c # s # rest"
    and "seg_type (parseSegment c) = CatchAll"
  shows "match E (snd (addRoute E path h t)) p = match E t p"
proof -
  have u: "u_matchPath E (snd (addRoute E path h t)) p x y = u_matchPath E t p x y" for x y
    by (simp add: addRoute_segments assms(1) u_matchPath_def u_match_after_catch_all [OF assms(2)])
  have o: "options (snd (addRoute E path h t)) = options t"
    by (simp add: addRoute_segments)
  show ?thesis
    unfolding match_def u o ..
qed

text \<open>
  C10. A pattern whose first segment is a catch-all segment and that goes on after it
  changes the result of \<open>match\<close> for no path, on any trie: its handler goes below the
  catch-all child, whose own handler list stays as it was. So it is for
  \<open>/:rest*/tail\<close>, which never throws: on a fresh trie the handler sits at the static
  child \<open>tail\<close> of the catch-all child, and every path matches nothing.
\<close>

theorem unreachable_after_catch_all:
  "(route_segments (options t) pattern = c # s # rest \<and> seg_type (parseSegment c) = CatchAll
      \<longrightarrow> match E (snd (addRoute E pattern h t)) path = match E t path)
   \<and> fst (addRoute E ''/:rest*/tail'' h t) = None
   \<and> match E (snd (addRoute E ''/:rest*/tail'' h t)) path = match E t path
   \<and> root (snd (addRoute E ''/:rest*/tail'' h (new_RouteTrie ic fp ts)))
       = TrieNode [] [] (Some (''rest'', TrieNode [(''tail'', TrieNode [] [] None None [h])] [] None None []))
           None []
   \<and> match E (snd (addRoute E ''/:rest*/tail'' h (new_RouteTrie ic fp ts))) path = []"
proof -
  have g: "route_segments (options t) pattern = c # s # rest \<and> seg_type (parseSegment c) = CatchAll
      \<longrightarrow> match E (snd (addRoute E pattern h t)) path = match E t path"
    using match_after_catch_all [of t pattern c s rest E h path] by blast
  have c: "root (snd (addRoute E ''/:rest*/tail'' h (new_RouteTrie ic fp ts)))
       = TrieNode [] [] (Some (''rest'', TrieNode [(''tail'', TrieNode [] [] None None [h])] [] None None []))
           None []"
    by (simp add: addRoute_segments segments_rest_tail new_RouteTrie_def new_TrieNode_def add_rest_tail)
  have r: "fst (addRoute E ''/:rest*/tail'' h t) = None
   \<and> match E (snd (addRoute E ''/:rest*/tail'' h t)) path = match E t path
   \<and> root (snd (addRoute E ''/:rest*/tail'' h (new_RouteTrie ic fp ts)))
       = TrieNode [] [] (Some (''rest'', TrieNode [(''tail'', TrieNode [] [] None None [h])] [] None None []))
           None []
   \<and> match E (snd (addRoute E ''/:rest*/tail'' h (new_RouteTrie ic fp ts))) path = []"
    by (simp only: insert_rest_tail_ok match_insert_rest_tail match_fresh c simp_thms)
  show ?thesis by (rule conjI [OF g r])
qed

theorem unreachable_after_catch_all_witness:
  "route_segments (options (new_RouteTrie None None None :: (nat, string \<times> string) RouteTrie))
       ''/:rest*/a/b'' = ['':rest*'', ''a'', ''b'']
   \<and> seg_type (parseSegment '':rest*'') = CatchAll
   \<and> match sample_engine
        (snd (addRoute sample_engine ''/:rest*/a/b'' (1::nat) (new_RouteTrie None None None))) ''/x/a/b''
       = []"
proof -
  let ?t = "new_RouteTrie None None None :: (nat, string \<times> string) RouteTrie"
  have a: "route_segments (options ?t) ''/:rest*/a/b'' = ['':rest*'', ''a'', ''b'']"
    by (simp add: string_defs add_defs)
  have b: "seg_type (parseSegment '':rest*'') = CatchAll"
    by (simp add: parse_catch_all_rest)
  note th = unreachable_after_catch_all [of ?t "''/:rest*/a/b''" "'':rest*''" "''a''" "[''b'']"
      sample_engine "1::nat" "''/x/a/b''"]
  from th [THEN conjunct1, rule_format, OF conjI [OF a b]]
  have "match sample_engine (snd (addRoute sample_engine ''/:rest*/a/b'' (1::nat) ?t)) ''/x/a/b''
          = match sample_engine ?t ''/x/a/b''" .
  then have "match sample_engine (snd (addRoute sample_engine ''/:rest*/a/b'' (1::nat) ?t)) ''/x/a/b'' = []"
    by (simp only: match_fresh)
  with a b show ?thesis by (intro conjI)
qed

section \<open>Catch-all results\<close>

lemma insert_rest_fresh:
  "addRoute E ''/:rest*'' h (new_RouteTrie (Some ic) (Some fp) (Some ts)) =
     (None,
      \<lparr>root = TrieNode [] [] (Some (''rest'', TrieNode [] [] None None [h])) None [],
       options = \<lparr>ignoreCase = ic, fixedPath = fp, trailingSlash = ts\<rparr>,
       routes = [('':rest*'', [h])]\<rparr>)"
  by (cases ic; cases fp) (simp_all add: string_defs parse_defs add_defs Let_def)

lemma match_rest_abc:
  "match E \<lparr>root = TrieNode [] [] (Some (''rest'', TrieNode [] [] None None [h])) None [],
            options = \<lparr>ignoreCase = ic, fixedPath = fp, trailingSlash = ts\<rparr>,
            routes = rs\<rparr> ''/a/b/c'' = [\<lparr>params = [(''rest'', ''a/b/c'')], result_handlers = [h]\<rparr>]"
  by (cases ic) (simp_all add: string_defs match_defs Let_def)

lemma match_rest_root:
  "match E \<lparr>root = TrieNode [] [] (Some (''rest'', TrieNode [] [] None None [h])) None [],
            options = \<lparr>ignoreCase = ic, fixedPath = fp, trailingSlash = ts\<rparr>,
            routes = rs\<rparr> ''/'' = [\<lparr>params = [(''rest'', [])], result_handlers = [h]\<rparr>]"
  by (cases ic) (simp_all add: string_defs match_defs Let_def)

lemma u_match_exhausted:
  "u_match E (TrieNode sc pc (Some (n, c)) w hs) [] ps =
     (if hs \<noteq> [] then [\<lparr>params = ps, result_handlers = hs\<rparr>] else [])
     @ (if handlers c \<noteq> [] then [\<lparr>params = AList.update n [] ps, result_handlers = handlers c\<rparr>]
        else [])"
  by (simp add: u_match.simps catchAll_results_def)

lemma u_match_remaining:
  "u_match E (TrieNode sc pc (Some (n, c)) w hs) (s # rest) ps =
     u_match E (TrieNode sc pc None None hs) (s # rest) ps
     @ (if handlers c \<noteq> []
        then [\<lparr>params = AList.update n (join_str ''/'' (s # rest)) ps, result_handlers = handlers c\<rparr>]
        else [])
     @ u_match E (TrieNode [] [] None w []) (s # rest) ps"
  by (simp add: u_match.simps catchAll_results_def)

text \<open>
  C5, as amended. At a node with a catch-all child, when the segments are exhausted the
  results are the node's own handlers, if it has any, followed by the handlers of the
  catch-all child, if it has any, with its name bound to the empty string. When
  segments remain, the results are those of the static and the parameter children, then
  one result for the catch-all child if it has handlers, its name bound to the remaining
  segments joined by the separator, then those of the wildcard child; nothing below the
  catch-all child is visited. The pattern \<open>/:rest*\<close> matches \<open>/a/b/c\<close> with \<open>rest\<close>
  bound to \<open>a/b/c\<close>, and \<open>/\<close> with \<open>rest\<close> bound to the empty string.
\<close>

theorem catch_all_semantics:
  "u_match E (TrieNode sc pc (Some (n, c)) w hs) [] ps =
     (if hs \<noteq> [] then [\<lparr>params = ps, result_handlers = hs\<rparr>] else [])
     @ (if handlers c \<noteq> [] then [\<lparr>params = AList.update n [] ps, result_handlers = handlers c\<rparr>]
        else [])
   \<and> u_match E (TrieNode sc pc (Some (n, c)) w hs) (s # rest) ps =
     u_match E (TrieNode sc pc None None hs) (s # rest) ps
     @ (if handlers c \<noteq> []
        then [\<lparr>params = AList.update n (join_str ''/'' (s # rest)) ps, result_handlers = handlers c\<rparr>]
        else [])
     @ u_match E (TrieNode [] [] None w []) (s # rest) ps
   \<and> match E (snd (addRoute E ''/:rest*'' h (new_RouteTrie (Some ic) (Some fp) (Some ts)))) ''/a/b/c''
       = [\<lparr>params = [(''rest'', ''a/b/c'')], result_handlers = [h]\<rparr>]
   \<and> match E (snd (addRoute E ''/:rest*'' h (new_RouteTrie (Some ic) (Some fp) (Some ts)))) ''/''
       = [\<lparr>params = [(''rest'', [])], result_handlers = [h]\<rparr>]"
  by (simp only: u_match_exhausted u_match_remaining insert_rest_fresh snd_conv
        match_rest_abc match_rest_root simp_thms)

lemma insert_rest_tail_default:
  "addRoute E ''/:rest*/tail'' h (new_RouteTrie None None None) =
     (None,
      \<lparr>root = TrieNode [] []
                (Some (''rest'', TrieNode [(''tail'', TrieNode [] [] None None [h])] [] None None []))
                None [],
       options = \<lparr>ignoreCase = True, fixedPath = True, trailingSlash = True\<rparr>,
       routes = [('':rest*/tail'', [h])]\<rparr>)"
  by (simp add: string_defs parse_defs add_defs Let_def)

text \<open>
  A catch-all child without handlers of its own is recorded neither when segments
  remain nor when they are exhausted: after \<open>/:rest*/tail\<close> the root has a catch-all
  child, and \<open>/x\<close> and \<open>/\<close> match nothing.
\<close>

theorem catch_all_semantics_counterexample:
  "catchAllChild (root (snd (addRoute sample_engine ''/:rest*/tail'' (1::nat) (new_RouteTrie None None None))))
     = Some (''rest'', TrieNode [(''tail'', TrieNode [] [] None None [1])] [] None None [])
   \<and> u_match sample_engine
        (root (snd (addRoute sample_engine ''/:rest*/tail'' (1::nat) (new_RouteTrie None None None))))
        [''x''] [] = []
   \<and> u_match sample_engine
        (root (snd (addRoute sample_engine ''/:rest*/tail'' (1::nat) (new_RouteTrie None None None))))
        [] [] = []
   \<and> match sample_engine
        (snd (addRoute sample_engine ''/:rest*/tail'' (1::nat) (new_RouteTrie None None None))) ''/x'' = []
   \<and> match sample_engine
        (snd (addRoute sample_engine ''/:rest*/tail'' (1::nat) (new_RouteTrie None None None))) ''/'' = []"
  unfolding insert_rest_tail_default by (simp add: string_defs match_defs)


section \<open>Classifier\<close>



















lemma parse_type:
  "seg_type (parseSegment seg) =
     (if startsWith seg ''::'' then Static
      else if seg = ''*'' then Wildcard
      else if endsWith seg ''*'' \<and> take 1 seg = '':'' then CatchAll
      else (case suffixMatch seg of
              Some m \<Rightarrow> (if truthy (fst (snd m)) then NamedRegexSuffix else NamedSuffix)
            | None \<Rightarrow>
                (case regexMatch seg of
                   Some m \<Rightarrow> NamedRegex
                 | None \<Rightarrow> if startsWith seg '':'' then Named else Static)))"
  by (simp add: parseSegment_def split: option.splits prod.splits)

lemma parse_value:
  "seg_value (parseSegment seg) =
     (if startsWith seg ''::'' then Some (CHR '':'' # slice_from seg 2)
      else if seg = ''*'' then None
      else if endsWith seg ''*'' \<and> take 1 seg = '':'' then None
      else (case suffixMatch seg of
              Some m \<Rightarrow> None
            | None \<Rightarrow>
                (case regexMatch seg of
                   Some m \<Rightarrow> None
                 | None \<Rightarrow> if startsWith seg '':'' then None else Some seg)))"
  by (simp add: parseSegment_def split: option.splits prod.splits)



text \<open>The fields that \<open>_addRoute\<close> reads with a non-null assertion are there.\<close>

lemma parse_name:
  "seg_name (parseSegment seg) =
     (if startsWith seg ''::'' then None
      else if seg = ''*'' then None
      else if endsWith seg ''*'' \<and> take 1 seg = '':'' then Some (slice seg 1 (- 1))
      else (case suffixMatch seg of
              Some m \<Rightarrow> Some (fst m)
            | None \<Rightarrow>
                (case regexMatch seg of
                   Some m \<Rightarrow> Some (fst m)
                 | None \<Rightarrow> if startsWith seg '':'' then Some (slice_from seg 1) else None)))"
  by (simp add: parseSegment_def split: option.splits prod.splits)

lemma static_has_value:
  "seg_type (parseSegment seg) = Static \<Longrightarrow> seg_value (parseSegment seg) \<noteq> None"
  unfolding parse_type parse_value
  by (cases "suffixMatch seg"; cases "regexMatch seg") (auto split: if_splits)

lemma param_has_name:
  "seg_type (parseSegment seg) \<noteq> Static \<Longrightarrow> seg_type (parseSegment seg) \<noteq> Wildcard \<Longrightarrow>
   seg_name (parseSegment seg) \<noteq> None"
  unfolding parse_type parse_name
  by (cases "suffixMatch seg"; cases "regexMatch seg") (auto split: if_splits)






section \<open>Failures of registration\<close>

lemma parse_regex:
  "seg_regex (parseSegment seg) =
     (if startsWith seg ''::'' then None
      else if seg = ''*'' then None
      else if endsWith seg ''*'' \<and> take 1 seg = '':'' then None
      else (case suffixMatch seg of
              Some m \<Rightarrow> fst (snd m)
            | None \<Rightarrow> (case regexMatch seg of Some m \<Rightarrow> Some (snd m) | None \<Rightarrow> None)))"
  by (simp add: parseSegment_def split: option.splits prod.splits)

lemma parse_type_not_literal: "seg_type (parseSegment seg) \<noteq> LiteralColon"
  unfolding parse_type by (simp split: option.splits)

lemma regex_bearing_type:
  assumes "regex_bearing seg"
  shows "seg_type (parseSegment seg) = NamedRegex \<or> seg_type (parseSegment seg) = NamedRegexSuffix"
proof -
  from assms have t: "truthy (seg_regex (parseSegment seg))"
    by (simp add: regex_bearing_def)
  show ?thesis
  proof (cases "startsWith seg ''::'' \<or> seg = ''*'' \<or> (endsWith seg ''*'' \<and> take 1 seg = '':'')")
    case True
    then have "seg_regex (parseSegment seg) = None" by (auto simp add: parse_regex)
    with t show ?thesis by (simp add: truthy_def)
  next
    case False
    show ?thesis
    proof (cases "suffixMatch seg")
      case None
      show ?thesis
      proof (cases "regexMatch seg")
        case None
        with False \<open>suffixMatch seg = None\<close> have "seg_regex (parseSegment seg) = None"
          by (simp add: parse_regex)
        with t show ?thesis by (simp add: truthy_def)
      next
        case (Some m)
        with False \<open>suffixMatch seg = None\<close> show ?thesis by (simp add: parse_type)
      qed
    next
      case (Some m)
      with False have "seg_regex (parseSegment seg) = fst (snd m)" by (auto simp add: parse_regex)
      with t have "truthy (fst (snd m))" by simp
      with False Some show ?thesis by (auto simp add: parse_type)
    qed
  qed
qed

lemma find_paramChild_Inr:
  assumes "parsed_regex_toString E parsed = Inr x"
  shows "\<exists>y. find_paramChild E parsed ps = Inr y"
proof (induction ps)
  case Nil
  show ?case by simp
next
  case (Cons param ps)
  then obtain y where "find_paramChild E parsed ps = Inr y" by blast
  then show ?case by (simp add: assms)
qed

lemma find_paramChild_Inl:
  assumes "parsed_regex_toString E parsed = Inl e"
  shows "find_paramChild E parsed ps = Inl e \<or> find_paramChild E parsed ps = Inr None"
proof (induction ps)
  case Nil
  show ?case by simp
next
  case (Cons param ps)
  then show ?case by (auto simp add: assms)
qed

lemma toString_ok:
  assumes "regex_bearing seg \<longrightarrow> compiles_bare E seg"
  shows "\<exists>x. parsed_regex_toString E (parseSegment seg) = Inr x"
  using assms
  by (auto simp add: parsed_regex_toString_def regex_bearing_def compiles_bare_def)

lemma compile_ok:
  assumes "regex_bearing seg \<longrightarrow> compiles_anchored E opts seg"
  shows "\<exists>x. compile_regex E opts (parseSegment seg) = Inr x"
  using assms
  by (auto simp add: compile_regex_def regex_bearing_def compiles_anchored_def)

lemma toString_fails:
  assumes "regex_bearing seg" and "\<not> compiles_bare E seg"
  shows "\<exists>e. parsed_regex_toString E (parseSegment seg) = Inl e"
  using assms
  by (auto simp add: parsed_regex_toString_def regex_bearing_def compiles_bare_def)

lemma compile_fails:
  assumes "regex_bearing seg" and "\<not> compiles_anchored E opts seg"
  shows "\<exists>e. compile_regex E opts (parseSegment seg) = Inl e"
  using assms
  by (auto simp add: compile_regex_def regex_bearing_def compiles_anchored_def)

lemma fst_case_pair: "fst (case p of (e, c) \<Rightarrow> (e, g c)) = fst p"
  by (cases p) simp

lemma u_addRoute_Cons_ok:
  assumes f: "find_paramChild E (parseSegment seg) (paramChildren node) = Inr y"
    and c: "compile_regex E opts (parseSegment seg) = Inr x"
    and r: "\<And>node'. fst (u_addRoute E opts node' rest h) = None"
  shows "fst (u_addRoute E opts node (seg # rest) h) = None"
  by (cases "seg_type (parseSegment seg)"; cases y)
     (simp_all add: u_addRoute.simps Let_def f c r fst_case_pair addHandler_def)


lemma u_addRoute_Cons_raises_here:
  assumes t: "seg_type (parseSegment seg) = NamedRegex \<or> seg_type (parseSegment seg) = NamedRegexSuffix"
    and f: "find_paramChild E (parseSegment seg) (paramChildren node) = Inl e1
            \<or> find_paramChild E (parseSegment seg) (paramChildren node) = Inr None"
    and c: "compile_regex E opts (parseSegment seg) = Inl e2"
  shows "fst (u_addRoute E opts node (seg # rest) h) \<noteq> None"
  using t f by (auto simp add: u_addRoute.simps Let_def c)

lemma u_addRoute_Cons_raises_later:
  assumes t: "seg_type (parseSegment seg) \<noteq> Wildcard"
    and r: "\<And>node'. fst (u_addRoute E opts node' rest h) \<noteq> None"
  shows "fst (u_addRoute E opts node (seg # rest) h) \<noteq> None"
proof -
  have l: "seg_type (parseSegment seg) \<noteq> LiteralColon" by (rule parse_type_not_literal)
  have r': "\<exists>y. fst (u_addRoute E opts n rest h) = Some y" for n
    using r [of n] by simp
  show ?thesis
    using t l
    by (cases "seg_type (parseSegment seg)")
       (simp_all add: u_addRoute.simps Let_def fst_case_pair r' split: sum.splits option.splits)
qed

lemma u_addRoute_ok:
  assumes "list_all (\<lambda>s. regex_bearing s \<longrightarrow> compiles_bare E s \<and> compiles_anchored E opts s)
             (walked_segments segs)"
  shows "fst (u_addRoute E opts node segs h) = None"
  using assms
proof (induction segs arbitrary: node)
  case Nil
  show ?case by (simp add: u_addRoute.simps)
next
  case (Cons seg rest)
  show ?case
  proof (cases "seg_type (parseSegment seg) = Wildcard")
    case True
    then show ?thesis by (simp add: u_addRoute.simps Let_def split: prod.splits)
  next
    case False
    with Cons.prems have here: "regex_bearing seg \<longrightarrow> compiles_bare E seg \<and> compiles_anchored E opts seg"
      and later: "list_all (\<lambda>s. regex_bearing s \<longrightarrow> compiles_bare E s \<and> compiles_anchored E opts s)
                    (walked_segments rest)"
      by (simp_all add: walked_segments_def)
    from here obtain x where "parsed_regex_toString E (parseSegment seg) = Inr x"
      using toString_ok [of seg E] by blast
    then obtain y where f: "find_paramChild E (parseSegment seg) (paramChildren node) = Inr y"
      using find_paramChild_Inr by blast
    from here obtain z where c: "compile_regex E opts (parseSegment seg) = Inr z"
      using compile_ok [of seg E opts] by blast
    show ?thesis
      by (rule u_addRoute_Cons_ok [OF f c]) (rule Cons.IH [OF later])
  qed
qed

lemma u_addRoute_raises:
  assumes "list_ex (\<lambda>s. regex_bearing s \<and> \<not> compiles_bare E s \<and> \<not> compiles_anchored E opts s)
             (walked_segments segs)"
  shows "fst (u_addRoute E opts node segs h) \<noteq> None"
  using assms
proof (induction segs arbitrary: node)
  case Nil
  then show ?case by (simp add: walked_segments_def)
next
  case (Cons seg rest)
  from Cons.prems have w: "seg_type (parseSegment seg) \<noteq> Wildcard"
    by (auto simp add: walked_segments_def split: if_splits)
  with Cons.prems have d:
    "(regex_bearing seg \<and> \<not> compiles_bare E seg \<and> \<not> compiles_anchored E opts seg)
     \<or> list_ex (\<lambda>s. regex_bearing s \<and> \<not> compiles_bare E s \<and> \<not> compiles_anchored E opts s)
          (walked_segments rest)"
    by (simp add: walked_segments_def)
  then show ?case
  proof
    assume bad: "regex_bearing seg \<and> \<not> compiles_bare E seg \<and> \<not> compiles_anchored E opts seg"
    then obtain e1 where "parsed_regex_toString E (parseSegment seg) = Inl e1"
      using toString_fails [of seg E] by blast
    then have f: "find_paramChild E (parseSegment seg) (paramChildren node) = Inl e1
            \<or> find_paramChild E (parseSegment seg) (paramChildren node) = Inr None"
      by (rule find_paramChild_Inl)
    from bad obtain e2 where c: "compile_regex E opts (parseSegment seg) = Inl e2"
      using compile_fails [of seg E opts] by blast
    from bad have t: "seg_type (parseSegment seg) = NamedRegex
                       \<or> seg_type (parseSegment seg) = NamedRegexSuffix"
      using regex_bearing_type by blast
    show ?thesis by (rule u_addRoute_Cons_raises_here [OF t f c])
  next
    assume "list_ex (\<lambda>s. regex_bearing s \<and> \<not> compiles_bare E s \<and> \<not> compiles_anchored E opts s)
              (walked_segments rest)"
    then have "\<And>node'. fst (u_addRoute E opts node' rest h) \<noteq> None"
      by (rule Cons.IH)
    then show ?thesis by (rule u_addRoute_Cons_raises_later [OF w])
  qed
qed

lemma fst_addRoute:
  "fst (addRoute E path h t) = fst (u_addRoute E (options t) (root t) (route_segments (options t) path) h)"
  by (simp add: addRoute_segments)

text \<open>
  C6, as amended. \<open>addRoute\<close> classifies the segments of the normalized pattern up to
  the first wildcard segment and no further. On every trie: if each of these segments
  that bears a pattern has one that compiles, bare and anchored, the call returns
  normally; if one of them has a pattern that compiles neither bare nor anchored, the
  call throws.
\<close>

theorem insert_fails_iff:
  "(list_all (\<lambda>s. regex_bearing s \<longrightarrow> compiles_bare E s \<and> compiles_anchored E (options t) s)
      (walked_segments (route_segments (options t) path))
    \<longrightarrow> fst (addRoute E path h t) = None)
   \<and> (list_ex (\<lambda>s. regex_bearing s \<and> \<not> compiles_bare E s \<and> \<not> compiles_anchored E (options t) s)
      (walked_segments (route_segments (options t) path))
    \<longrightarrow> fst (addRoute E path h t) \<noteq> None)"
  unfolding fst_addRoute
proof (intro conjI impI)
  assume "list_all (\<lambda>s. regex_bearing s \<longrightarrow> compiles_bare E s \<and> compiles_anchored E (options t) s)
            (walked_segments (route_segments (options t) path))"
  then show "fst (u_addRoute E (options t) (root t) (route_segments (options t) path) h) = None"
    by (rule u_addRoute_ok)
next
  assume "list_ex (\<lambda>s. regex_bearing s \<and> \<not> compiles_bare E s \<and> \<not> compiles_anchored E (options t) s)
            (walked_segments (route_segments (options t) path))"
  then show "fst (u_addRoute E (options t) (root t) (route_segments (options t) path) h) \<noteq> None"
    by (rule u_addRoute_raises)
qed

theorem insert_fails_iff_witness:
  "fst (addRoute sample_engine (''/:id('' @ digits @ '')'') (1::nat)
          (new_RouteTrie None None None :: (nat, string \<times> string) RouteTrie)) = None
   \<and> fst (addRoute sample_engine ''/:id([)'' (1::nat)
          (new_RouteTrie None None None :: (nat, string \<times> string) RouteTrie)) \<noteq> None"
proof -
  let ?t = "new_RouteTrie None None None :: (nat, string \<times> string) RouteTrie"
  have a: "list_all (\<lambda>s. regex_bearing s \<longrightarrow>
                 compiles_bare sample_engine s \<and> compiles_anchored sample_engine (options ?t) s)
             (walked_segments (route_segments (options ?t) (''/:id('' @ digits @ '')'')))"
    by (simp add: walked_segments_def regex_bearing_def compiles_bare_def compiles_anchored_def
          string_defs parse_defs add_defs engine_defs Let_def)
  have b: "list_ex (\<lambda>s. regex_bearing s \<and>
                 \<not> compiles_bare sample_engine s \<and> \<not> compiles_anchored sample_engine (options ?t) s)
             (walked_segments (route_segments (options ?t) ''/:id([)''))"
    by (simp add: walked_segments_def regex_bearing_def compiles_bare_def compiles_anchored_def
          string_defs parse_defs add_defs engine_defs Let_def)
  note th = insert_fails_iff [of sample_engine ?t _ "1::nat"]
  from th [THEN conjunct1, rule_format, OF a] th [THEN conjunct2, rule_format, OF b]
  show ?thesis by (intro conjI)
qed

text \<open>
  A pattern with a regex-bearing segment that does not compile, registered without an
  exception: the segment follows a wildcard, so it is never classified.
\<close>

theorem insert_fails_iff_counterexample:
  "route_segments \<lparr>ignoreCase = True, fixedPath = True, trailingSlash = True\<rparr> ''/*/:id([)''
     = [''*'', '':id([)'']
   \<and> regex_bearing '':id([)''
   \<and> \<not> compiles_bare sample_engine '':id([)''
   \<and> \<not> compiles_anchored sample_engine
         \<lparr>ignoreCase = True, fixedPath = True, trailingSlash = True\<rparr> '':id([)''
   \<and> fst (addRoute sample_engine ''/*/:id([)'' (1::nat) (new_RouteTrie None None None)) = None"
  by (simp add: regex_bearing_def compiles_bare_def compiles_anchored_def
        string_defs parse_defs add_defs engine_defs Let_def)

end
